theory Spec2Isabelle
  imports Main "HOL-Library.AList"
begin

section \<open>The attempt guard of src/lib/rate-limit.ts\<close>

text \<open>
  The module keeps one process-wide \<^verbatim>\<open>Map<string, RateLimitRecord>\<close> and reads the clock
  with \<^verbatim>\<open>Date.now()\<close>. In the embedding the store is passed in and returned, and the clock
  reading of a call is its first argument \<open>now\<close> (milliseconds, an integer, as
  \<^verbatim>\<open>Date.now()\<close> returns it). All numbers the module computes with are integers far below
  \<open>2^53\<close>, where JavaScript's doubles are exact, so they are modelled as \<open>int\<close>.
\<close>

subsection \<open>Data model\<close>

record RateLimitRecord =
  count :: int
  firstAttempt :: int
  lastAttempt :: int
  blocked :: bool
  blockedUntil :: int

text \<open>
  A JavaScript \<^verbatim>\<open>Map\<close> keeps its entries in insertion order with unique keys. It is an
  association list here: \<open>map_of\<close> is \<^verbatim>\<open>get\<close>, \<open>AList.update\<close> is \<^verbatim>\<open>set\<close> (an existing key keeps
  its place, a new one goes to the end) and \<open>AList.delete\<close> is \<^verbatim>\<open>delete\<close>.
\<close>

type_synonym store = "(string \<times> RateLimitRecord) list"

definition WINDOW_MS :: int where
  "WINDOW_MS = 15 * 60 * 1000"

definition MAX_ATTEMPTS :: int where
  "MAX_ATTEMPTS = 5"

definition BLOCK_DURATION_MS :: int where
  "BLOCK_DURATION_MS = 30 * 60 * 1000"

definition CLEANUP_INTERVAL_MS :: int where
  "CLEANUP_INTERVAL_MS = 5 * 60 * 1000"

text \<open>
  The four message templates of the module. Their text is Chinese; each constructor carries
  the number the template interpolates.
  \<^item> \<open>RetryInMinutes n\<close>: too many login attempts, retry in \<open>n\<close> minutes (lines 79 and 133);
  \<^item> \<open>TooManyAttempts\<close>: too many attempts, retry later (line 105);
  \<^item> \<open>LockedForMinutes n\<close>: too many login attempts, locked for \<open>n\<close> minutes (line 172);
  \<^item> \<open>AttemptsLeft n\<close>: \<open>n\<close> attempts left (line 184).
\<close>

datatype message = RetryInMinutes int | TooManyAttempts | LockedForMinutes int | AttemptsLeft int

text \<open>
  The result of \<^verbatim>\<open>checkRateLimit\<close> and \<^verbatim>\<open>recordFailedAttempt\<close>. Its field \<^verbatim>\<open>blocked\<close> is
  \<open>res_blocked\<close> here, the name \<open>blocked\<close> being the record's field. An absent or
  \<^verbatim>\<open>undefined\<close> message is \<open>None\<close>.
\<close>

record RateLimitResult =
  success :: bool
  remaining :: int
  resetIn :: int
  res_blocked :: bool
  message :: "message option"

text \<open>\<^verbatim>\<open>Math.ceil(a / b)\<close> for integers \<open>a\<close> and a positive integer \<open>b\<close>.\<close>

definition ceil_div :: "int \<Rightarrow> int \<Rightarrow> int" where
  "ceil_div a b = - ((- a) div b)"

subsection \<open>checkRateLimit\<close>

text \<open>
  Lines 87 to 114: the part of \<^verbatim>\<open>checkRateLimit\<close> after the block test, on the value the
  local variable \<^verbatim>\<open>record\<close> has there.
\<close>

definition check_window :: "int \<Rightarrow> RateLimitRecord option \<Rightarrow> RateLimitResult" where
  "check_window now rec =
     (case rec of
        None \<Rightarrow>
          \<lparr>success = True, remaining = MAX_ATTEMPTS, resetIn = ceil_div WINDOW_MS 1000,
           res_blocked = False, message = None\<rparr>
      | Some r \<Rightarrow>
          if now - firstAttempt r > WINDOW_MS then
            \<lparr>success = True, remaining = MAX_ATTEMPTS, resetIn = ceil_div WINDOW_MS 1000,
             res_blocked = False, message = None\<rparr>
          else
            (let remaining = MAX_ATTEMPTS - count r in
             if remaining \<le> 0 then
               \<lparr>success = False, remaining = 0,
                resetIn = ceil_div (firstAttempt r + WINDOW_MS - now) 1000,
                res_blocked = False, message = Some TooManyAttempts\<rparr>
             else
               \<lparr>success = True, remaining = remaining,
                resetIn = ceil_div (firstAttempt r + WINDOW_MS - now) 1000,
                res_blocked = False, message = None\<rparr>))"

text \<open>
  Lines 66 to 115. The result is the decision and the store the call leaves behind: the
  branch of an expired block deletes the identifier's entry (line 83) and goes on with
  \<^verbatim>\<open>record = undefined\<close>.
\<close>

definition checkRateLimit :: "int \<Rightarrow> string \<Rightarrow> store \<Rightarrow> RateLimitResult \<times> store" where
  "checkRateLimit now identifier loginAttempts =
     (case map_of loginAttempts identifier of
        None \<Rightarrow> (check_window now None, loginAttempts)
      | Some r \<Rightarrow>
          if blocked r then
            if blockedUntil r > now then
              (let resetIn = ceil_div (blockedUntil r - now) 1000 in
               (\<lparr>success = False, remaining = 0, resetIn = resetIn, res_blocked = True,
                 message = Some (RetryInMinutes (ceil_div resetIn 60))\<rparr>,
                loginAttempts))
            else (check_window now None, AList.delete identifier loginAttempts)
          else (check_window now (Some r), loginAttempts))"

subsection \<open>recordFailedAttempt\<close>

text \<open>Lines 139 to 153: the fresh record and the decision returned with it.\<close>

definition new_record :: "int \<Rightarrow> RateLimitRecord" where
  "new_record now =
     \<lparr>count = 1, firstAttempt = now, lastAttempt = now, blocked = False, blockedUntil = 0\<rparr>"

definition new_record_result :: RateLimitResult where
  "new_record_result =
     \<lparr>success = True, remaining = MAX_ATTEMPTS - 1, resetIn = ceil_div WINDOW_MS 1000,
      res_blocked = False, message = None\<rparr>"

text \<open>
  Lines 121 to 186. The source updates the fields of the object held by the map and then
  sets it again under the same key; no other entry refers to that object, so the effect is
  one update of the entry.
\<close>

definition recordFailedAttempt :: "int \<Rightarrow> string \<Rightarrow> store \<Rightarrow> RateLimitResult \<times> store" where
  "recordFailedAttempt now identifier loginAttempts =
     (case map_of loginAttempts identifier of
        None \<Rightarrow> (new_record_result, AList.update identifier (new_record now) loginAttempts)
      | Some r \<Rightarrow>
          if blocked r \<and> blockedUntil r > now then
            (let resetIn = ceil_div (blockedUntil r - now) 1000 in
             (\<lparr>success = False, remaining = 0, resetIn = resetIn, res_blocked = True,
               message = Some (RetryInMinutes (ceil_div resetIn 60))\<rparr>,
              loginAttempts))
          else if now - firstAttempt r > WINDOW_MS then
            (new_record_result, AList.update identifier (new_record now) loginAttempts)
          else
            (let r1 = r\<lparr>count := count r + 1, lastAttempt := now\<rparr> in
             if count r1 \<ge> MAX_ATTEMPTS then
               (let r2 = r1\<lparr>blocked := True, blockedUntil := now + BLOCK_DURATION_MS\<rparr>;
                    resetIn = ceil_div BLOCK_DURATION_MS 1000 in
                (\<lparr>success = False, remaining = 0, resetIn = resetIn, res_blocked = True,
                  message = Some (LockedForMinutes (ceil_div resetIn 60))\<rparr>,
                 AList.update identifier r2 loginAttempts))
             else
               (let remaining = MAX_ATTEMPTS - count r1 in
                (\<lparr>success = True, remaining = remaining,
                  resetIn = ceil_div (firstAttempt r1 + WINDOW_MS - now) 1000,
                  res_blocked = False,
                  message = (if remaining \<le> 2 then Some (AttemptsLeft remaining) else None)\<rparr>,
                 AList.update identifier r1 loginAttempts))))"

subsection \<open>clearRateLimit\<close>

text \<open>Lines 192 to 194. \<^verbatim>\<open>Map.delete\<close> of an absent key does nothing and raises nothing.\<close>

definition clearRateLimit :: "string \<Rightarrow> store \<Rightarrow> store" where
  "clearRateLimit identifier loginAttempts = AList.delete identifier loginAttempts"

subsection \<open>The cleanup pass\<close>

text \<open>
  Lines 39 to 47, the body of the interval callback of \<^verbatim>\<open>startCleanup\<close>: one loop over the
  entries of the map, deleting by key. The second argument is the entries still to visit,
  the third the map as the loop has left it so far.
\<close>

fun cleanup_loop :: "int \<Rightarrow> store \<Rightarrow> store \<Rightarrow> store" where
  "cleanup_loop now [] loginAttempts = loginAttempts"
| "cleanup_loop now ((key, r) # entries) loginAttempts =
     cleanup_loop now entries
       (if blocked r \<and> blockedUntil r < now then AList.delete key loginAttempts
        else if \<not> blocked r \<and> now - firstAttempt r > WINDOW_MS then
          AList.delete key loginAttempts
        else loginAttempts)"

definition cleanup :: "int \<Rightarrow> store \<Rightarrow> store" where
  "cleanup now loginAttempts = cleanup_loop now loginAttempts loginAttempts"

subsection \<open>Callers\<close>

text \<open>
  Consecutive calls of \<open>recordFailedAttempt\<close> for one identifier, one per clock reading of
  the list, in order; the decisions are collected in call order.
\<close>

fun record_failures :: "int list \<Rightarrow> string \<Rightarrow> store \<Rightarrow> RateLimitResult list \<times> store" where
  "record_failures [] identifier loginAttempts = ([], loginAttempts)"
| "record_failures (now # later) identifier loginAttempts =
     (case recordFailedAttempt now identifier loginAttempts of
        (res, loginAttempts') \<Rightarrow>
          (case record_failures later identifier loginAttempts' of
             (ress, loginAttempts'') \<Rightarrow> (res # ress, loginAttempts'')))"

text \<open>
  The store is private to the module: it starts empty and only the three exported functions
  and the cleanup pass touch it. A history of the module is a list of calls, each with the
  clock reading it obtained; \<open>run\<close> gives the store a history leaves behind. The readings
  of a history come from one clock, read call after call; where a property depends on time
  moving forward, it is stated for histories whose readings do not decrease,
  \<open>sorted (map fst history)\<close>.
\<close>

datatype operation = Check string | RecordFailure string | Clear string | Cleanup

fun apply_operation :: "int \<Rightarrow> operation \<Rightarrow> store \<Rightarrow> store" where
  "apply_operation now (Check identifier) s = snd (checkRateLimit now identifier s)"
| "apply_operation now (RecordFailure identifier) s = snd (recordFailedAttempt now identifier s)"
| "apply_operation now (Clear identifier) s = clearRateLimit identifier s"
| "apply_operation now Cleanup s = cleanup now s"

fun run :: "(int \<times> operation) list \<Rightarrow> store \<Rightarrow> store" where
  "run [] s = s"
| "run ((now, oper) # later) s = run later (apply_operation now oper s)"

text \<open>
  The removal condition of the cleanup pass in the words of the specification: the record is
  blocked and \<open>blockedUntil\<close> has passed, or it is not blocked and
  \<open>now - firstAttempt > window\<close>. A point of time has passed when the clock reads later
  than it.
\<close>

definition spec_expired :: "int \<Rightarrow> RateLimitRecord \<Rightarrow> bool" where
  "spec_expired now r =
     ((blocked r \<and> blockedUntil r < now) \<or> (\<not> blocked r \<and> now - firstAttempt r > WINDOW_MS))"

text \<open>
  What every record of a store written at clock readings up to \<open>t\<close> satisfies: its window
  started at or before \<open>t\<close>, and if it is blocked, the block ends at least a block duration
  after the window started (line 163 sets \<open>blockedUntil\<close> from a reading that is not before
  \<open>firstAttempt\<close>).
\<close>

definition record_ok :: "int \<Rightarrow> RateLimitRecord \<Rightarrow> bool" where
  "record_ok t r =
     (firstAttempt r \<le> t \<and> (\<not> blocked r \<or> firstAttempt r + BLOCK_DURATION_MS \<le> blockedUntil r))"

definition store_ok :: "int \<Rightarrow> store \<Rightarrow> bool" where
  "store_ok t s = list_all (\<lambda>(k, r). record_ok t r) s"

section \<open>Properties\<close>

subsection \<open>Decisions of checkRateLimit on absent and stale records\<close>

lemma ceil_div_window: "ceil_div WINDOW_MS 1000 = 900"
  by (simp add: ceil_div_def WINDOW_MS_def)

text \<open>
  C3. For an identifier with no record in the store, and for an identifier whose record is
  not blocked and whose window has elapsed (\<open>now - firstAttempt > WINDOW_MS\<close>),
  \<open>checkRateLimit\<close> returns success, \<open>remaining = 5\<close> (the maximum) and \<open>resetIn = 900\<close> seconds
  (the window length).
\<close>

theorem check_absent_or_stale:
  assumes "map_of s identifier = None \<or>
           (\<exists>r. map_of s identifier = Some r \<and> \<not> blocked r \<and> now - firstAttempt r > WINDOW_MS)"
  shows "success (fst (checkRateLimit now identifier s)) = True \<and>
         remaining (fst (checkRateLimit now identifier s)) = 5 \<and>
         remaining (fst (checkRateLimit now identifier s)) = MAX_ATTEMPTS \<and>
         resetIn (fst (checkRateLimit now identifier s)) = 900"
  using assms
  by (auto simp: checkRateLimit_def check_window_def ceil_div_window MAX_ATTEMPTS_def)

theorem check_absent_or_stale_witness:
  "map_of ([] :: store) ''5.6.7.8'' = None \<and>
   fst (checkRateLimit 1000 ''5.6.7.8'' []) =
     \<lparr>success = True, remaining = 5, resetIn = 900, res_blocked = False, message = None\<rparr> \<and>
   map_of [(''1.2.3.4'', \<lparr>count = 2, firstAttempt = 0, lastAttempt = 10, blocked = False,
                         blockedUntil = 0\<rparr>)] ''1.2.3.4'' =
     Some \<lparr>count = 2, firstAttempt = 0, lastAttempt = 10, blocked = False, blockedUntil = 0\<rparr> \<and>
   900001 - (0::int) > WINDOW_MS \<and>
   remaining (fst (checkRateLimit 900001 ''1.2.3.4''
      [(''1.2.3.4'', \<lparr>count = 2, firstAttempt = 0, lastAttempt = 10, blocked = False,
                      blockedUntil = 0\<rparr>)])) = 5 \<and>
   resetIn (fst (checkRateLimit 900001 ''1.2.3.4''
      [(''1.2.3.4'', \<lparr>count = 2, firstAttempt = 0, lastAttempt = 10, blocked = False,
                      blockedUntil = 0\<rparr>)])) = 900"
  using check_absent_or_stale [of "[]" "''5.6.7.8''" 1000]
    check_absent_or_stale [of "[(''1.2.3.4'', \<lparr>count = 2, firstAttempt = 0, lastAttempt = 10,
      blocked = False, blockedUntil = 0\<rparr>)]" "''1.2.3.4''" 900001]
  by (simp add: checkRateLimit_def check_window_def ceil_div_def WINDOW_MS_def MAX_ATTEMPTS_def)

subsection \<open>clearRateLimit followed by checkRateLimit\<close>

text \<open>
  C5. \<open>clearRateLimit\<close> is a plain deletion: it has no failing branch, whatever the store
  holds for the identifier (a blocked record, a partial count or nothing), and it returns a
  store for every input. After it the identifier has no record and every other identifier
  has the record it had, and a \<open>checkRateLimit\<close> right after it, at any clock reading,
  returns success with \<open>remaining = MAX_ATTEMPTS = 5\<close>.
\<close>

theorem check_after_clear:
  "map_of (clearRateLimit identifier s) k = (if k = identifier then None else map_of s k) \<and>
   map_of (clearRateLimit identifier s) identifier = None \<and>
   fst (checkRateLimit now identifier (clearRateLimit identifier s)) =
     \<lparr>success = True, remaining = MAX_ATTEMPTS, resetIn = 900, res_blocked = False,
      message = None\<rparr> \<and>
   remaining (fst (checkRateLimit now identifier (clearRateLimit identifier s))) = 5"
  by (simp add: clearRateLimit_def checkRateLimit_def check_window_def AList.delete_conv'
      ceil_div_window MAX_ATTEMPTS_def)

subsection \<open>The shape of a decision\<close>

text \<open>
  C10. Every decision returned by \<open>checkRateLimit\<close> or \<open>recordFailedAttempt\<close>, for every
  identifier, clock reading and store, has \<open>remaining \<ge> 0\<close>; if it is a success it is not
  blocked; and if it is blocked it is not a success and has \<open>remaining = 0\<close>.
\<close>

theorem decision_shape:
  assumes "res = fst (checkRateLimit now identifier s) \<or>
           res = fst (recordFailedAttempt now identifier s)"
  shows "remaining res \<ge> 0 \<and> (success res \<longrightarrow> \<not> res_blocked res) \<and>
         (res_blocked res \<longrightarrow> \<not> success res \<and> remaining res = 0)"
  using assms
  by (auto simp: checkRateLimit_def check_window_def recordFailedAttempt_def
      new_record_result_def Let_def MAX_ATTEMPTS_def split: option.splits if_splits)

theorem decision_shape_witness:
  "res_blocked (fst (recordFailedAttempt 4000 ''1.2.3.4''
      [(''1.2.3.4'', \<lparr>count = 4, firstAttempt = 0, lastAttempt = 3000, blocked = False,
                      blockedUntil = 0\<rparr>)])) \<and>
   \<not> success (fst (recordFailedAttempt 4000 ''1.2.3.4''
      [(''1.2.3.4'', \<lparr>count = 4, firstAttempt = 0, lastAttempt = 3000, blocked = False,
                      blockedUntil = 0\<rparr>)])) \<and>
   remaining (fst (recordFailedAttempt 4000 ''1.2.3.4''
      [(''1.2.3.4'', \<lparr>count = 4, firstAttempt = 0, lastAttempt = 3000, blocked = False,
                      blockedUntil = 0\<rparr>)])) = 0 \<and>
   success (fst (checkRateLimit 4000 ''5.6.7.8'' [])) \<and>
   \<not> res_blocked (fst (checkRateLimit 4000 ''5.6.7.8'' [])) \<and>
   remaining (fst (checkRateLimit 4000 ''5.6.7.8'' [])) \<ge> 0"
  using decision_shape [of "fst (recordFailedAttempt 4000 ''1.2.3.4''
      [(''1.2.3.4'', \<lparr>count = 4, firstAttempt = 0, lastAttempt = 3000, blocked = False,
                      blockedUntil = 0\<rparr>)])" 4000 "''1.2.3.4''"
      "[(''1.2.3.4'', \<lparr>count = 4, firstAttempt = 0, lastAttempt = 3000, blocked = False,
                      blockedUntil = 0\<rparr>)]"]
    decision_shape [of "fst (checkRateLimit 4000 ''5.6.7.8'' [])" 4000 "''5.6.7.8''" "[]"]
  by (simp add: checkRateLimit_def check_window_def recordFailedAttempt_def Let_def
      MAX_ATTEMPTS_def WINDOW_MS_def)

subsection \<open>What checkRateLimit does to the store\<close>

text \<open>
  C1 says that \<open>checkRateLimit\<close> never changes the store. The source deletes the identifier's
  entry when it finds a block that has run out (line 83, under the comment that the block has
  expired and the record is cleared). After five failures at 0, 1000, ..., 4000 ms the
  identifier is blocked until 1804000; a check at that very reading removes the entry.
\<close>

theorem check_mutates_counterexample:
  "snd (checkRateLimit 1804000 ''1.2.3.4''
          (snd (record_failures [0, 1000, 2000, 3000, 4000] ''1.2.3.4'' []))) \<noteq>
   snd (record_failures [0, 1000, 2000, 3000, 4000] ''1.2.3.4'' [])"
  by (simp add: checkRateLimit_def recordFailedAttempt_def new_record_def Let_def
      MAX_ATTEMPTS_def WINDOW_MS_def BLOCK_DURATION_MS_def)

text \<open>
  C1, amended. \<open>checkRateLimit\<close> leaves the store as it is, except when the identifier's
  record is blocked and its \<open>blockedUntil\<close> is at or before the clock reading: then it
  deletes that identifier's entry and nothing else. The records of all other identifiers are
  never touched.
\<close>

theorem check_store_effect:
  "snd (checkRateLimit now identifier s) =
     (if (\<exists>r. map_of s identifier = Some r \<and> blocked r \<and> blockedUntil r \<le> now)
      then AList.delete identifier s else s) \<and>
   map_of (snd (checkRateLimit now identifier s)) k =
     (if k = identifier \<and> (\<exists>r. map_of s identifier = Some r \<and> blocked r \<and> blockedUntil r \<le> now)
      then None else map_of s k)"
  by (auto simp: checkRateLimit_def Let_def AList.delete_conv' split: option.splits)

subsection \<open>Consecutive failures\<close>

text \<open>The three ways \<open>recordFailedAttempt\<close> writes the store, one equation each.\<close>

lemma recordFailedAttempt_absent:
  "map_of s identifier = None \<Longrightarrow>
   recordFailedAttempt now identifier s =
     (new_record_result, AList.update identifier (new_record now) s)"
  by (simp add: recordFailedAttempt_def)

lemma recordFailedAttempt_increment:
  assumes "map_of s identifier = Some r"
    and "\<not> (blocked r \<and> blockedUntil r > now)"
    and "now - firstAttempt r \<le> WINDOW_MS"
    and "count r + 1 < MAX_ATTEMPTS"
  shows "recordFailedAttempt now identifier s =
     (\<lparr>success = True, remaining = MAX_ATTEMPTS - (count r + 1),
       resetIn = ceil_div (firstAttempt r + WINDOW_MS - now) 1000, res_blocked = False,
       message = (if MAX_ATTEMPTS - (count r + 1) \<le> 2
                  then Some (AttemptsLeft (MAX_ATTEMPTS - (count r + 1))) else None)\<rparr>,
      AList.update identifier (r\<lparr>count := count r + 1, lastAttempt := now\<rparr>) s)"
  using assms by (simp add: recordFailedAttempt_def Let_def)

lemma recordFailedAttempt_threshold:
  assumes "map_of s identifier = Some r"
    and "\<not> (blocked r \<and> blockedUntil r > now)"
    and "now - firstAttempt r \<le> WINDOW_MS"
    and "count r + 1 \<ge> MAX_ATTEMPTS"
  shows "recordFailedAttempt now identifier s =
     (\<lparr>success = False, remaining = 0, resetIn = 1800, res_blocked = True,
       message = Some (LockedForMinutes 30)\<rparr>,
      AList.update identifier
        (r\<lparr>count := count r + 1, lastAttempt := now, blocked := True,
           blockedUntil := now + BLOCK_DURATION_MS\<rparr>) s)"
  using assms by (simp add: recordFailedAttempt_def Let_def ceil_div_def BLOCK_DURATION_MS_def)

lemma map_of_update_same: "map_of (AList.update k v s) k = Some v"
  by (simp add: AList.update_conv')

lemma record_failures_Cons:
  "recordFailedAttempt now identifier s = (res, s1) \<Longrightarrow>
   record_failures (now # later) identifier s =
     (res # fst (record_failures later identifier s1), snd (record_failures later identifier s1))"
  by (simp split: prod.splits)

lemma record_failures_append:
  "record_failures (ts @ us) identifier s =
     (case record_failures ts identifier s of
        (ress, s') \<Rightarrow>
          (case record_failures us identifier s' of (ress', s'') \<Rightarrow> (ress @ ress', s'')))"
  by (induction ts arbitrary: s) (auto split: prod.splits)

lemma four_failures:
  assumes "map_of s identifier = None"
    and "t2 - t1 \<le> WINDOW_MS" and "t3 - t1 \<le> WINDOW_MS" and "t4 - t1 \<le> WINDOW_MS"
  shows "record_failures [t1, t2, t3, t4] identifier s =
     ([\<lparr>success = True, remaining = 4, resetIn = 900, res_blocked = False, message = None\<rparr>,
       \<lparr>success = True, remaining = 3, resetIn = ceil_div (t1 + WINDOW_MS - t2) 1000,
        res_blocked = False, message = None\<rparr>,
       \<lparr>success = True, remaining = 2, resetIn = ceil_div (t1 + WINDOW_MS - t3) 1000,
        res_blocked = False, message = Some (AttemptsLeft 2)\<rparr>,
       \<lparr>success = True, remaining = 1, resetIn = ceil_div (t1 + WINDOW_MS - t4) 1000,
        res_blocked = False, message = Some (AttemptsLeft 1)\<rparr>],
      AList.update identifier
        \<lparr>count = 4, firstAttempt = t1, lastAttempt = t4, blocked = False, blockedUntil = 0\<rparr> s)"
proof -
  let ?r1 = "\<lparr>count = 1, firstAttempt = t1, lastAttempt = t1, blocked = False, blockedUntil = 0\<rparr>"
  let ?r2 = "\<lparr>count = 2, firstAttempt = t1, lastAttempt = t2, blocked = False, blockedUntil = 0\<rparr>"
  let ?r3 = "\<lparr>count = 3, firstAttempt = t1, lastAttempt = t3, blocked = False, blockedUntil = 0\<rparr>"
  let ?r4 = "\<lparr>count = 4, firstAttempt = t1, lastAttempt = t4, blocked = False, blockedUntil = 0\<rparr>"
  have 1: "recordFailedAttempt t1 identifier s =
      (\<lparr>success = True, remaining = 4, resetIn = 900, res_blocked = False, message = None\<rparr>,
       AList.update identifier ?r1 s)"
    using assms(1)
    by (simp add: recordFailedAttempt_absent new_record_result_def new_record_def
        ceil_div_window MAX_ATTEMPTS_def)
  have 2: "recordFailedAttempt t2 identifier (AList.update identifier ?r1 s) =
      (\<lparr>success = True, remaining = 3, resetIn = ceil_div (t1 + WINDOW_MS - t2) 1000,
        res_blocked = False, message = None\<rparr>, AList.update identifier ?r2 s)"
    using assms(2) recordFailedAttempt_increment [of "AList.update identifier ?r1 s" "identifier" "?r1" t2]
    by (simp add: MAX_ATTEMPTS_def map_of_update_same)
  have 3: "recordFailedAttempt t3 identifier (AList.update identifier ?r2 s) =
      (\<lparr>success = True, remaining = 2, resetIn = ceil_div (t1 + WINDOW_MS - t3) 1000,
        res_blocked = False, message = Some (AttemptsLeft 2)\<rparr>, AList.update identifier ?r3 s)"
    using assms(3) recordFailedAttempt_increment [of "AList.update identifier ?r2 s" "identifier" "?r2" t3]
    by (simp add: MAX_ATTEMPTS_def map_of_update_same)
  have 4: "recordFailedAttempt t4 identifier (AList.update identifier ?r3 s) =
      (\<lparr>success = True, remaining = 1, resetIn = ceil_div (t1 + WINDOW_MS - t4) 1000,
        res_blocked = False, message = Some (AttemptsLeft 1)\<rparr>, AList.update identifier ?r4 s)"
    using assms(4) recordFailedAttempt_increment [of "AList.update identifier ?r3 s" "identifier" "?r3" t4]
    by (simp add: MAX_ATTEMPTS_def map_of_update_same)
  show ?thesis
    by (simp only: record_failures_Cons [OF 1] record_failures_Cons [OF 2]
        record_failures_Cons [OF 3] record_failures_Cons [OF 4] record_failures.simps(1)
        fst_conv snd_conv)
qed

text \<open>
  C6. Whenever \<open>recordFailedAttempt\<close> increments a record whose window is still active
  (the record is not under a running block, \<open>now - firstAttempt \<le> WINDOW_MS\<close>) and the new
  count stays below the threshold, it returns success with
  \<open>remaining = MAX_ATTEMPTS - count\<close> for the new count, and its message is present exactly
  when \<open>remaining \<le> 2\<close>. In particular four consecutive calls for an identifier without a
  record, all within the window the first call opens, return \<open>remaining = 4, 3, 2, 1\<close>, with
  a message on the third and the fourth call (where \<open>remaining \<le> 2\<close>) and on no other.
\<close>

theorem record_failure_warns:
  "(map_of s identifier = Some r \<and> \<not> (blocked r \<and> blockedUntil r > now) \<and>
    now - firstAttempt r \<le> WINDOW_MS \<and> count r + 1 < MAX_ATTEMPTS \<longrightarrow>
      success (fst (recordFailedAttempt now identifier s)) \<and>
      \<not> res_blocked (fst (recordFailedAttempt now identifier s)) \<and>
      map_of (snd (recordFailedAttempt now identifier s)) identifier =
        Some (r\<lparr>count := count r + 1, lastAttempt := now\<rparr>) \<and>
      remaining (fst (recordFailedAttempt now identifier s)) = MAX_ATTEMPTS - (count r + 1) \<and>
      (message (fst (recordFailedAttempt now identifier s)) \<noteq> None) =
        (remaining (fst (recordFailedAttempt now identifier s)) \<le> 2)) \<and>
   (map_of s0 identifier = None \<and>
    t2 - t1 \<le> WINDOW_MS \<and> t3 - t1 \<le> WINDOW_MS \<and> t4 - t1 \<le> WINDOW_MS \<longrightarrow>
      map success (fst (record_failures [t1, t2, t3, t4] identifier s0)) =
        [True, True, True, True] \<and>
      map remaining (fst (record_failures [t1, t2, t3, t4] identifier s0)) = [4, 3, 2, 1] \<and>
      map message (fst (record_failures [t1, t2, t3, t4] identifier s0)) =
        [None, None, Some (AttemptsLeft 2), Some (AttemptsLeft 1)])"
proof (intro conjI impI)
  assume a: "map_of s identifier = Some r \<and> \<not> (blocked r \<and> blockedUntil r > now) \<and>
    now - firstAttempt r \<le> WINDOW_MS \<and> count r + 1 < MAX_ATTEMPTS"
  then have eq: "recordFailedAttempt now identifier s =
     (\<lparr>success = True, remaining = MAX_ATTEMPTS - (count r + 1),
       resetIn = ceil_div (firstAttempt r + WINDOW_MS - now) 1000, res_blocked = False,
       message = (if MAX_ATTEMPTS - (count r + 1) \<le> 2
                  then Some (AttemptsLeft (MAX_ATTEMPTS - (count r + 1))) else None)\<rparr>,
      AList.update identifier (r\<lparr>count := count r + 1, lastAttempt := now\<rparr>) s)"
    by (intro recordFailedAttempt_increment) simp_all
  show "success (fst (recordFailedAttempt now identifier s))"
    and "\<not> res_blocked (fst (recordFailedAttempt now identifier s))"
    and "map_of (snd (recordFailedAttempt now identifier s)) identifier =
        Some (r\<lparr>count := count r + 1, lastAttempt := now\<rparr>)"
    and "remaining (fst (recordFailedAttempt now identifier s)) = MAX_ATTEMPTS - (count r + 1)"
    and "(message (fst (recordFailedAttempt now identifier s)) \<noteq> None) =
        (remaining (fst (recordFailedAttempt now identifier s)) \<le> 2)"
    by (simp_all add: eq map_of_update_same)
next
  assume b: "map_of s0 identifier = None \<and>
    t2 - t1 \<le> WINDOW_MS \<and> t3 - t1 \<le> WINDOW_MS \<and> t4 - t1 \<le> WINDOW_MS"
  then have eq: "record_failures [t1, t2, t3, t4] identifier s0 =
     ([\<lparr>success = True, remaining = 4, resetIn = 900, res_blocked = False, message = None\<rparr>,
       \<lparr>success = True, remaining = 3, resetIn = ceil_div (t1 + WINDOW_MS - t2) 1000,
        res_blocked = False, message = None\<rparr>,
       \<lparr>success = True, remaining = 2, resetIn = ceil_div (t1 + WINDOW_MS - t3) 1000,
        res_blocked = False, message = Some (AttemptsLeft 2)\<rparr>,
       \<lparr>success = True, remaining = 1, resetIn = ceil_div (t1 + WINDOW_MS - t4) 1000,
        res_blocked = False, message = Some (AttemptsLeft 1)\<rparr>],
      AList.update identifier
        \<lparr>count = 4, firstAttempt = t1, lastAttempt = t4, blocked = False, blockedUntil = 0\<rparr> s0)"
    by (intro four_failures) simp_all
  show "map success (fst (record_failures [t1, t2, t3, t4] identifier s0)) =
        [True, True, True, True]"
    and "map remaining (fst (record_failures [t1, t2, t3, t4] identifier s0)) = [4, 3, 2, 1]"
    and "map message (fst (record_failures [t1, t2, t3, t4] identifier s0)) =
        [None, None, Some (AttemptsLeft 2), Some (AttemptsLeft 1)]"
    unfolding eq by simp_all
qed

theorem record_failure_warns_witness:
  "map_of [(''1.2.3.4'', \<lparr>count = 2, firstAttempt = 0, lastAttempt = 1000, blocked = False,
                         blockedUntil = 0\<rparr>)] ''1.2.3.4'' =
     Some \<lparr>count = 2, firstAttempt = 0, lastAttempt = 1000, blocked = False, blockedUntil = 0\<rparr> \<and>
   2000 - 0 \<le> WINDOW_MS \<and> 2 + 1 < MAX_ATTEMPTS \<and>
   remaining (fst (recordFailedAttempt 2000 ''1.2.3.4''
     [(''1.2.3.4'', \<lparr>count = 2, firstAttempt = 0, lastAttempt = 1000, blocked = False,
                     blockedUntil = 0\<rparr>)])) = 2 \<and>
   message (fst (recordFailedAttempt 2000 ''1.2.3.4''
     [(''1.2.3.4'', \<lparr>count = 2, firstAttempt = 0, lastAttempt = 1000, blocked = False,
                     blockedUntil = 0\<rparr>)])) \<noteq> None \<and>
   map_of ([] :: store) ''1.2.3.4'' = None \<and>
   1000 - 0 \<le> WINDOW_MS \<and> 3000 - 0 \<le> WINDOW_MS \<and>
   map remaining (fst (record_failures [0, 1000, 2000, 3000] ''1.2.3.4'' [])) = [4, 3, 2, 1] \<and>
   map message (fst (record_failures [0, 1000, 2000, 3000] ''1.2.3.4'' [])) =
     [None, None, Some (AttemptsLeft 2), Some (AttemptsLeft 1)]"
  using record_failure_warns [of
      "[(''1.2.3.4'', \<lparr>count = 2, firstAttempt = 0, lastAttempt = 1000, blocked = False,
                      blockedUntil = 0\<rparr>)]" "''1.2.3.4''"
      "\<lparr>count = 2, firstAttempt = 0, lastAttempt = 1000, blocked = False, blockedUntil = 0\<rparr>"
      2000 "[]" 1000 0 2000 3000]
  by (simp add: recordFailedAttempt_def new_record_def new_record_result_def Let_def
      MAX_ATTEMPTS_def WINDOW_MS_def ceil_div_def)

text \<open>
  C2. Starting from no record for the identifier, five calls of \<open>recordFailedAttempt\<close>
  (\<open>MAX_ATTEMPTS\<close> of them), all within the window the first call opens, end with a blocked
  decision on the fifth call and on no earlier one. The record is then blocked until
  \<open>t5 + BLOCK_DURATION_MS\<close>, and \<open>checkRateLimit\<close> at any reading strictly before that
  denies, leaving the store as it is (so every later check before that reading denies too).
\<close>

theorem five_failures_block:
  assumes "map_of s identifier = None"
    and "t2 - t1 \<le> WINDOW_MS" and "t3 - t1 \<le> WINDOW_MS" and "t4 - t1 \<le> WINDOW_MS"
    and "t5 - t1 \<le> WINDOW_MS"
    and "record_failures [t1, t2, t3, t4, t5] identifier s = (ress, s')"
  shows "res_blocked (last ress) \<and> \<not> success (last ress) \<and>
         map res_blocked ress = [False, False, False, False, True] \<and>
         map_of s' identifier =
           Some \<lparr>count = 5, firstAttempt = t1, lastAttempt = t5, blocked = True,
                 blockedUntil = t5 + BLOCK_DURATION_MS\<rparr> \<and>
         (\<forall>t. t < t5 + BLOCK_DURATION_MS \<longrightarrow>
            \<not> success (fst (checkRateLimit t identifier s')) \<and>
            res_blocked (fst (checkRateLimit t identifier s')) \<and>
            snd (checkRateLimit t identifier s') = s')"
proof -
  let ?r4 = "\<lparr>count = 4, firstAttempt = t1, lastAttempt = t4, blocked = False, blockedUntil = 0\<rparr>"
  let ?r5 = "\<lparr>count = 5, firstAttempt = t1, lastAttempt = t5, blocked = True,
              blockedUntil = t5 + BLOCK_DURATION_MS\<rparr>"
  have 4: "record_failures [t1, t2, t3, t4] identifier s =
     ([\<lparr>success = True, remaining = 4, resetIn = 900, res_blocked = False, message = None\<rparr>,
       \<lparr>success = True, remaining = 3, resetIn = ceil_div (t1 + WINDOW_MS - t2) 1000,
        res_blocked = False, message = None\<rparr>,
       \<lparr>success = True, remaining = 2, resetIn = ceil_div (t1 + WINDOW_MS - t3) 1000,
        res_blocked = False, message = Some (AttemptsLeft 2)\<rparr>,
       \<lparr>success = True, remaining = 1, resetIn = ceil_div (t1 + WINDOW_MS - t4) 1000,
        res_blocked = False, message = Some (AttemptsLeft 1)\<rparr>],
      AList.update identifier ?r4 s)"
    using assms(1-4) by (rule four_failures)
  have 5: "recordFailedAttempt t5 identifier (AList.update identifier ?r4 s) =
      (\<lparr>success = False, remaining = 0, resetIn = 1800, res_blocked = True,
        message = Some (LockedForMinutes 30)\<rparr>, AList.update identifier ?r5 s)"
    using assms(5) recordFailedAttempt_threshold [of "AList.update identifier ?r4 s" "identifier" "?r4" t5]
    by (simp add: MAX_ATTEMPTS_def map_of_update_same)
  have app: "record_failures [t1, t2, t3, t4, t5] identifier s =
     (case record_failures [t1, t2, t3, t4] identifier s of
        (ress, s') \<Rightarrow>
          (case record_failures [t5] identifier s' of (ress', s'') \<Rightarrow> (ress @ ress', s'')))"
    using record_failures_append [of "[t1, t2, t3, t4]" "[t5]" "identifier" s]
    by (simp only: append.simps)
  have "record_failures [t1, t2, t3, t4, t5] identifier s =
     ([\<lparr>success = True, remaining = 4, resetIn = 900, res_blocked = False, message = None\<rparr>,
       \<lparr>success = True, remaining = 3, resetIn = ceil_div (t1 + WINDOW_MS - t2) 1000,
        res_blocked = False, message = None\<rparr>,
       \<lparr>success = True, remaining = 2, resetIn = ceil_div (t1 + WINDOW_MS - t3) 1000,
        res_blocked = False, message = Some (AttemptsLeft 2)\<rparr>,
       \<lparr>success = True, remaining = 1, resetIn = ceil_div (t1 + WINDOW_MS - t4) 1000,
        res_blocked = False, message = Some (AttemptsLeft 1)\<rparr>,
       \<lparr>success = False, remaining = 0, resetIn = 1800, res_blocked = True,
        message = Some (LockedForMinutes 30)\<rparr>],
      AList.update identifier ?r5 s)"
    by (simp only: app 4 record_failures_Cons [OF 5] record_failures.simps(1)
        fst_conv snd_conv prod.case append.simps)
  with assms(6) have ress: "ress =
      [\<lparr>success = True, remaining = 4, resetIn = 900, res_blocked = False, message = None\<rparr>,
       \<lparr>success = True, remaining = 3, resetIn = ceil_div (t1 + WINDOW_MS - t2) 1000,
        res_blocked = False, message = None\<rparr>,
       \<lparr>success = True, remaining = 2, resetIn = ceil_div (t1 + WINDOW_MS - t3) 1000,
        res_blocked = False, message = Some (AttemptsLeft 2)\<rparr>,
       \<lparr>success = True, remaining = 1, resetIn = ceil_div (t1 + WINDOW_MS - t4) 1000,
        res_blocked = False, message = Some (AttemptsLeft 1)\<rparr>,
       \<lparr>success = False, remaining = 0, resetIn = 1800, res_blocked = True,
        message = Some (LockedForMinutes 30)\<rparr>]"
    and s': "s' = AList.update identifier ?r5 s"
    by simp_all
  have look: "map_of s' identifier = Some ?r5"
    by (simp add: s' map_of_update_same)
  have "\<not> success (fst (checkRateLimit t identifier s')) \<and>
        res_blocked (fst (checkRateLimit t identifier s')) \<and>
        snd (checkRateLimit t identifier s') = s'" if "t < t5 + BLOCK_DURATION_MS" for t
    using that by (simp add: checkRateLimit_def look Let_def)
  then show ?thesis
    by (simp add: ress look)
qed

theorem five_failures_block_witness:
  "map_of ([] :: store) ''1.2.3.4'' = None \<and>
   1000 - 0 \<le> WINDOW_MS \<and> 2000 - 0 \<le> WINDOW_MS \<and> 3000 - 0 \<le> WINDOW_MS \<and>
   900000 - 0 \<le> WINDOW_MS \<and>
   snd (record_failures [0, 1000, 2000, 3000, 900000] ''1.2.3.4'' []) =
     [(''1.2.3.4'', \<lparr>count = 5, firstAttempt = 0, lastAttempt = 900000, blocked = True,
                     blockedUntil = 2700000\<rparr>)] \<and>
   res_blocked (last (fst (record_failures [0, 1000, 2000, 3000, 900000] ''1.2.3.4'' []))) \<and>
   \<not> success (fst (checkRateLimit 2699999 ''1.2.3.4''
     (snd (record_failures [0, 1000, 2000, 3000, 900000] ''1.2.3.4'' []))))"
  using five_failures_block [of "[]" "''1.2.3.4''" 1000 0 2000 3000 900000
      "fst (record_failures [0, 1000, 2000, 3000, 900000] ''1.2.3.4'' [])"
      "snd (record_failures [0, 1000, 2000, 3000, 900000] ''1.2.3.4'' [])"]
  by (simp add: recordFailedAttempt_def checkRateLimit_def new_record_def Let_def
      MAX_ATTEMPTS_def WINDOW_MS_def BLOCK_DURATION_MS_def)

subsection \<open>The store invariant\<close>

text \<open>
  \<open>store_ok t\<close> holds of the empty store and is kept by every operation called at a
  reading that is not before \<open>t\<close>.
\<close>

lemma set_update_subset: "set (AList.update k v s) \<subseteq> insert (k, v) (set s)"
  by (induction s) auto

lemma set_delete_subset: "set (AList.delete k s) \<subseteq> set s"
  by (auto simp: AList.delete_eq)

lemma store_ok_iff: "store_ok t s = (\<forall>(k, r) \<in> set s. record_ok t r)"
  by (simp add: store_ok_def list_all_iff)

lemma record_ok_mono: "record_ok t r \<Longrightarrow> t \<le> t' \<Longrightarrow> record_ok t' r"
  by (auto simp: record_ok_def)

lemma store_ok_mono: "store_ok t s \<Longrightarrow> t \<le> t' \<Longrightarrow> store_ok t' s"
  by (auto simp: store_ok_iff intro: record_ok_mono)

lemma store_ok_delete: "store_ok t s \<Longrightarrow> store_ok t (AList.delete k s)"
  using set_delete_subset [of k s] by (auto simp: store_ok_iff)

lemma store_ok_update: "store_ok t s \<Longrightarrow> record_ok t r \<Longrightarrow> store_ok t (AList.update k r s)"
  using set_update_subset [of k r s] by (auto simp: store_ok_iff)

lemma store_ok_lookup: "store_ok t s \<Longrightarrow> map_of s k = Some r \<Longrightarrow> record_ok t r"
  by (auto simp: store_ok_iff dest: map_of_SomeD)

lemma store_ok_check: "store_ok t s \<Longrightarrow> store_ok t (snd (checkRateLimit t identifier s))"
  by (auto simp: checkRateLimit_def Let_def store_ok_delete split: option.splits)

lemma record_ok_new: "record_ok t (new_record t)"
  by (simp add: record_ok_def new_record_def)

lemma store_ok_record:
  assumes "store_ok t s"
  shows "store_ok t (snd (recordFailedAttempt t identifier s))"
proof (cases "map_of s identifier")
  case None
  then show ?thesis
    using assms by (simp add: recordFailedAttempt_def store_ok_update record_ok_new)
next
  case (Some r)
  with assms have ok: "record_ok t r" by (rule store_ok_lookup)
  then have "record_ok t (r\<lparr>count := count r + 1, lastAttempt := t\<rparr>)"
    and "record_ok t (r\<lparr>count := count r + 1, lastAttempt := t, blocked := True,
            blockedUntil := t + BLOCK_DURATION_MS\<rparr>)"
    by (auto simp: record_ok_def)
  with Some assms show ?thesis
    by (simp add: recordFailedAttempt_def Let_def store_ok_update record_ok_new)
qed

lemma set_cleanup_loop_subset: "set (cleanup_loop now entries s) \<subseteq> set s"
proof (induction entries arbitrary: s)
  case Nil
  then show ?case by simp
next
  case (Cons e entries)
  obtain key r where e: "e = (key, r)" by (cases e)
  show ?case
    using Cons.IH [of "AList.delete key s"] Cons.IH [of s] set_delete_subset [of key s]
    by (auto simp: e)
qed

lemma store_ok_cleanup: "store_ok t s \<Longrightarrow> store_ok t (cleanup t s)"
  using set_cleanup_loop_subset [of t s s] by (auto simp: store_ok_iff cleanup_def)

lemma store_ok_apply: "store_ok t s \<Longrightarrow> store_ok t (apply_operation t oper s)"
  by (cases oper) (simp_all add: store_ok_check store_ok_record store_ok_cleanup
      clearRateLimit_def store_ok_delete)

lemma store_ok_run:
  "store_ok t s \<Longrightarrow> sorted (t # map fst history) \<Longrightarrow>
   store_ok (last (t # map fst history)) (run history s)"
proof (induction history arbitrary: t s)
  case Nil
  then show ?case by simp
next
  case (Cons c history)
  obtain now oper where c: "c = (now, oper)" by (cases c)
  from Cons.prems have "t \<le> now" and sorted: "sorted (now # map fst history)"
    by (simp_all add: c)
  with Cons.prems have "store_ok now (apply_operation now oper s)"
    by (simp add: store_ok_mono store_ok_apply)
  from Cons.IH [OF this sorted] show ?case
    by (simp add: c)
qed

lemma store_ok_history:
  assumes "sorted (map fst history)" and "\<forall>u \<in> set (map fst history). u \<le> now"
  shows "store_ok now (run history [])"
proof (cases history)
  case Nil
  then show ?thesis by (simp add: store_ok_def)
next
  case (Cons c rest)
  have "store_ok (fst c) []" by (simp add: store_ok_def)
  moreover have "sorted (fst c # map fst history)" using assms(1) Cons by simp
  ultimately have "store_ok (last (fst c # map fst history)) (run history [])"
    by (rule store_ok_run)
  moreover have "last (fst c # map fst history) \<le> now"
    using assms(2) Cons by (metis last_in_set list.set_intros(1) list.simps(9) list.distinct(1) last_ConsR)
  ultimately show ?thesis by (rule store_ok_mono)
qed

text \<open>
  C7. In every store that a history of \<open>checkRateLimit\<close>, \<open>recordFailedAttempt\<close>,
  \<open>clearRateLimit\<close> and cleanup passes leaves behind, starting from the empty store of the
  freshly loaded module, every blocked record has \<open>blockedUntil > firstAttempt\<close>. The clock
  readings of the history are taken in order from one clock, so they do not decrease.
\<close>

theorem blocked_until_after_first:
  assumes "sorted (map fst history)"
    and "(k, r) \<in> set (run history [])"
    and "blocked r"
  shows "blockedUntil r > firstAttempt r"
proof -
  have "\<forall>u \<in> set (map fst history). u \<le> last (0 # map fst history)"
    using assms(1) by (cases history rule: rev_cases) (auto simp: sorted_append)
  with assms(1) have "store_ok (last (0 # map fst history)) (run history [])"
    by (rule store_ok_history)
  with assms(2) have "record_ok (last (0 # map fst history)) r"
    by (auto simp: store_ok_iff)
  with assms(3) show ?thesis
    by (simp add: record_ok_def BLOCK_DURATION_MS_def)
qed

theorem blocked_until_after_first_witness:
  "sorted (map fst [(0, RecordFailure ''1.2.3.4''), (1000, RecordFailure ''1.2.3.4''),
      (2000, RecordFailure ''1.2.3.4''), (3000, RecordFailure ''1.2.3.4''),
      (4000::int, RecordFailure ''1.2.3.4'')]) \<and>
   (''1.2.3.4'', \<lparr>count = 5, firstAttempt = 0, lastAttempt = 4000, blocked = True,
                  blockedUntil = 1804000\<rparr>) \<in>
     set (run [(0, RecordFailure ''1.2.3.4''), (1000, RecordFailure ''1.2.3.4''),
      (2000, RecordFailure ''1.2.3.4''), (3000, RecordFailure ''1.2.3.4''),
      (4000, RecordFailure ''1.2.3.4'')] []) \<and>
   blocked \<lparr>count = 5, firstAttempt = 0, lastAttempt = 4000, blocked = True,
            blockedUntil = 1804000\<rparr> \<and>
   blockedUntil \<lparr>count = 5, firstAttempt = 0, lastAttempt = 4000, blocked = True,
            blockedUntil = 1804000\<rparr> >
   firstAttempt \<lparr>count = 5, firstAttempt = 0, lastAttempt = 4000, blocked = True,
            blockedUntil = 1804000\<rparr>"
  using blocked_until_after_first [of "[(0, RecordFailure ''1.2.3.4''),
      (1000, RecordFailure ''1.2.3.4''), (2000, RecordFailure ''1.2.3.4''),
      (3000, RecordFailure ''1.2.3.4''), (4000, RecordFailure ''1.2.3.4'')]" "''1.2.3.4''"
      "\<lparr>count = 5, firstAttempt = 0, lastAttempt = 4000, blocked = True,
        blockedUntil = 1804000\<rparr>"]
  by (simp add: recordFailedAttempt_def new_record_def Let_def
      MAX_ATTEMPTS_def WINDOW_MS_def BLOCK_DURATION_MS_def)

text \<open>
  C4. Let the store hold a blocked record for the identifier, and let the clock read
  \<open>now \<ge> blockedUntil\<close> (the store being what a history up to \<open>now\<close> has left behind,
  with readings that do not decrease). Then \<open>checkRateLimit\<close> returns success with
  \<open>remaining = MAX_ATTEMPTS\<close>, and \<open>recordFailedAttempt\<close> does what it does for an
  identifier without a record: it stores a new record with \<open>count = 1\<close> and returns success with
  \<open>remaining = MAX_ATTEMPTS - 1\<close>. The same holds for a \<open>recordFailedAttempt\<close> at any later
  reading \<open>now'\<close> that follows the check.
\<close>

theorem expired_block_is_fresh:
  assumes "sorted (map fst history @ [now])"
    and "s = run history []"
    and "map_of s identifier = Some r"
    and "blocked r"
    and "blockedUntil r \<le> now"
  shows "fst (checkRateLimit now identifier s) =
           \<lparr>success = True, remaining = MAX_ATTEMPTS, resetIn = 900, res_blocked = False,
            message = None\<rparr> \<and>
         fst (recordFailedAttempt now identifier s) =
           \<lparr>success = True, remaining = MAX_ATTEMPTS - 1, resetIn = 900, res_blocked = False,
            message = None\<rparr> \<and>
         map_of (snd (recordFailedAttempt now identifier s)) identifier =
           Some \<lparr>count = 1, firstAttempt = now, lastAttempt = now, blocked = False,
                 blockedUntil = 0\<rparr> \<and>
         fst (recordFailedAttempt now identifier s) =
           fst (recordFailedAttempt now identifier (clearRateLimit identifier s)) \<and>
         map_of (snd (recordFailedAttempt now identifier s)) =
           map_of (snd (recordFailedAttempt now identifier (clearRateLimit identifier s))) \<and>
         recordFailedAttempt now' identifier (snd (checkRateLimit now identifier s)) =
           recordFailedAttempt now' identifier (clearRateLimit identifier s) \<and>
         fst (recordFailedAttempt now' identifier (snd (checkRateLimit now identifier s))) =
           \<lparr>success = True, remaining = MAX_ATTEMPTS - 1, resetIn = 900, res_blocked = False,
            message = None\<rparr> \<and>
         map_of (snd (recordFailedAttempt now' identifier (snd (checkRateLimit now identifier s))))
             identifier =
           Some \<lparr>count = 1, firstAttempt = now', lastAttempt = now', blocked = False,
                 blockedUntil = 0\<rparr>"
proof -
  from assms(1) have "sorted (map fst history)" and "\<forall>u \<in> set (map fst history). u \<le> now"
    by (auto simp: sorted_append)
  then have "store_ok now (run history [])"
    by (rule store_ok_history)
  with assms(2,3) have "record_ok now r"
    by (auto dest: store_ok_lookup)
  with assms(4,5) have stale: "now - firstAttempt r > WINDOW_MS"
    by (simp add: record_ok_def BLOCK_DURATION_MS_def WINDOW_MS_def)
  have gone: "map_of (AList.delete identifier s) identifier = None"
    by (simp add: AList.delete_conv')
  have chk: "checkRateLimit now identifier s =
      (\<lparr>success = True, remaining = MAX_ATTEMPTS, resetIn = 900, res_blocked = False,
        message = None\<rparr>, AList.delete identifier s)"
    using assms(3,4,5) by (simp add: checkRateLimit_def check_window_def ceil_div_window)
  have rcd: "recordFailedAttempt now identifier s =
      (new_record_result, AList.update identifier (new_record now) s)"
    using assms(3,5) stale by (simp add: recordFailedAttempt_def)
  have rcd': "recordFailedAttempt now identifier (clearRateLimit identifier s) =
      (new_record_result, AList.update identifier (new_record now) (clearRateLimit identifier s))"
    using gone by (simp add: recordFailedAttempt_def clearRateLimit_def)
  have maps: "map_of (AList.update identifier (new_record now) s) =
      map_of (AList.update identifier (new_record now) (clearRateLimit identifier s))"
    by (simp add: AList.update_conv' AList.delete_conv' clearRateLimit_def)
  have later: "snd (checkRateLimit now identifier s) = clearRateLimit identifier s"
    by (simp add: chk clearRateLimit_def)
  have rcd'': "recordFailedAttempt now' identifier (clearRateLimit identifier s) =
      (new_record_result, AList.update identifier (new_record now') (clearRateLimit identifier s))"
    using gone by (simp add: recordFailedAttempt_def clearRateLimit_def)
  show ?thesis
    by (simp add: later rcd rcd' rcd'' maps [symmetric])
      (simp add: chk new_record_result_def new_record_def ceil_div_window AList.update_conv')
qed

theorem expired_block_is_fresh_witness:
  "sorted (map fst [(0, RecordFailure ''1.2.3.4''), (1000, RecordFailure ''1.2.3.4''),
      (2000, RecordFailure ''1.2.3.4''), (3000, RecordFailure ''1.2.3.4''),
      (4000::int, RecordFailure ''1.2.3.4'')] @ [1804000]) \<and>
   run [(0, RecordFailure ''1.2.3.4''), (1000, RecordFailure ''1.2.3.4''),
      (2000, RecordFailure ''1.2.3.4''), (3000, RecordFailure ''1.2.3.4''),
      (4000, RecordFailure ''1.2.3.4'')] [] =
     [(''1.2.3.4'', \<lparr>count = 5, firstAttempt = 0, lastAttempt = 4000, blocked = True,
                     blockedUntil = 1804000\<rparr>)] \<and>
   fst (checkRateLimit 1804000 ''1.2.3.4''
     [(''1.2.3.4'', \<lparr>count = 5, firstAttempt = 0, lastAttempt = 4000, blocked = True,
                     blockedUntil = 1804000\<rparr>)]) =
     \<lparr>success = True, remaining = 5, resetIn = 900, res_blocked = False, message = None\<rparr> \<and>
   recordFailedAttempt 1804000 ''1.2.3.4''
     [(''1.2.3.4'', \<lparr>count = 5, firstAttempt = 0, lastAttempt = 4000, blocked = True,
                     blockedUntil = 1804000\<rparr>)] =
     (\<lparr>success = True, remaining = 4, resetIn = 900, res_blocked = False, message = None\<rparr>,
      [(''1.2.3.4'', \<lparr>count = 1, firstAttempt = 1804000, lastAttempt = 1804000,
                      blocked = False, blockedUntil = 0\<rparr>)])"
  using expired_block_is_fresh [of "[(0, RecordFailure ''1.2.3.4''),
      (1000, RecordFailure ''1.2.3.4''), (2000, RecordFailure ''1.2.3.4''),
      (3000, RecordFailure ''1.2.3.4''), (4000, RecordFailure ''1.2.3.4'')]" 1804000
      "[(''1.2.3.4'', \<lparr>count = 5, firstAttempt = 0, lastAttempt = 4000, blocked = True,
                     blockedUntil = 1804000\<rparr>)]" "''1.2.3.4''"
      "\<lparr>count = 5, firstAttempt = 0, lastAttempt = 4000, blocked = True,
        blockedUntil = 1804000\<rparr>" 1804000]
  by (simp add: recordFailedAttempt_def new_record_def new_record_result_def Let_def
      checkRateLimit_def check_window_def ceil_div_def
      MAX_ATTEMPTS_def WINDOW_MS_def BLOCK_DURATION_MS_def)

subsection \<open>The cleanup pass as a filter\<close>

text \<open>
  The loop deletes by key, so what it leaves of a map depends on the entries visited only
  through the keys of the expired ones.
\<close>

lemma cleanup_loop_filter:
  "cleanup_loop now entries s =
     filter (\<lambda>(k, r). \<forall>r'. (k, r') \<in> set entries \<longrightarrow> \<not> spec_expired now r') s"
proof (induction entries arbitrary: s)
  case Nil
  then show ?case by simp
next
  case (Cons e entries)
  obtain key r where e: "e = (key, r)" by (cases e)
  show ?case
  proof (cases "spec_expired now r")
    case True
    then have "cleanup_loop now (e # entries) s = cleanup_loop now entries (AList.delete key s)"
      by (auto simp: e spec_expired_def)
    also have "\<dots> = filter (\<lambda>(k, r). \<forall>r'. (k, r') \<in> set entries \<longrightarrow> \<not> spec_expired now r')
        (AList.delete key s)"
      by (rule Cons.IH)
    also have "\<dots> = filter (\<lambda>(k, r). \<forall>r'. (k, r') \<in> set (e # entries) \<longrightarrow> \<not> spec_expired now r') s"
      using True by (auto simp: e AList.delete_eq intro!: filter_cong)
    finally show ?thesis .
  next
    case False
    then have "cleanup_loop now (e # entries) s = cleanup_loop now entries s"
      by (auto simp: e spec_expired_def)
    also have "\<dots> = filter (\<lambda>(k, r). \<forall>r'. (k, r') \<in> set entries \<longrightarrow> \<not> spec_expired now r') s"
      by (rule Cons.IH)
    also have "\<dots> = filter (\<lambda>(k, r). \<forall>r'. (k, r') \<in> set (e # entries) \<longrightarrow> \<not> spec_expired now r') s"
      using False by (auto simp: e intro!: filter_cong)
    finally show ?thesis .
  qed
qed

lemma map_of_filter_records:
  "distinct (map fst s) \<Longrightarrow>
   map_of (filter (\<lambda>(k, r). P r) s) k =
     (case map_of s k of None \<Rightarrow> None | Some r \<Rightarrow> if P r then Some r else None)"
proof (induction s)
  case Nil
  then show ?case by simp
next
  case (Cons e s)
  obtain key r where e: "e = (key, r)" by (cases e)
  from Cons.prems have notin: "map_of s key = None"
    by (simp add: e map_of_eq_None_iff)
  from Cons.prems have "distinct (map fst s)" by simp
  then have IH: "map_of (filter (\<lambda>(k, r). P r) s) k =
     (case map_of s k of None \<Rightarrow> None | Some r \<Rightarrow> if P r then Some r else None)"
    by (rule Cons.IH)
  show ?case
    using IH notin by (auto simp: e)
qed

lemma distinct_cleanup: "distinct (map fst s) \<Longrightarrow> distinct (map fst (cleanup now s))"
  by (simp add: cleanup_def cleanup_loop_filter distinct_map_filter)

lemma distinct_apply:
  "distinct (map fst s) \<Longrightarrow> distinct (map fst (apply_operation now oper s))"
  by (cases oper)
    (auto simp: checkRateLimit_def recordFailedAttempt_def clearRateLimit_def Let_def
      AList.distinct_update AList.distinct_delete distinct_cleanup split: option.splits)

lemma run_keys_distinct_from:
  "distinct (map fst s) \<Longrightarrow> distinct (map fst (run history s))"
  by (induction history arbitrary: s) (auto simp: distinct_apply)

lemma run_keys_distinct: "distinct (map fst (run history []))"
  by (rule run_keys_distinct_from) simp

text \<open>
  C8. One cleanup pass at reading \<open>now\<close> removes exactly the records that are blocked with
  \<open>blockedUntil\<close> passed (\<open>blockedUntil < now\<close>, line 42), or not blocked with
  \<open>now - firstAttempt > WINDOW_MS\<close>; every other entry stays, unchanged and in place. The keys
  of a \<^verbatim>\<open>Map\<close> are distinct (\<open>run_keys_distinct\<close> below shows it for every store the module
  can reach).
\<close>

theorem cleanup_removes_expired:
  assumes "distinct (map fst s)"
  shows "cleanup now s = filter (\<lambda>(k, r). \<not> spec_expired now r) s \<and>
         map_of (cleanup now s) k =
           (case map_of s k of
              None \<Rightarrow> None
            | Some r \<Rightarrow> if spec_expired now r then None else Some r)"
proof -
  have "(key, r) \<in> set s \<Longrightarrow>
      (\<forall>r'. (key, r') \<in> set s \<longrightarrow> \<not> spec_expired now r') = (\<not> spec_expired now r)" for key r
    using assms by (auto dest: eq_key_imp_eq_value)
  then have eq: "cleanup now s = filter (\<lambda>(k, r). \<not> spec_expired now r) s"
    unfolding cleanup_def cleanup_loop_filter by (intro filter_cong) auto
  show ?thesis
    using map_of_filter_records [OF assms, of "\<lambda>r. \<not> spec_expired now r" k]
    by (simp add: eq split: option.splits)
qed

theorem cleanup_removes_expired_witness:
  "distinct (map fst
     [(''a'', \<lparr>count = 5, firstAttempt = 0, lastAttempt = 4000, blocked = True,
               blockedUntil = 1804000\<rparr>),
      (''b'', \<lparr>count = 2, firstAttempt = 1000000, lastAttempt = 1000500, blocked = False,
               blockedUntil = 0\<rparr>),
      (''c'', \<lparr>count = 1, firstAttempt = 1500000, lastAttempt = 1500000, blocked = False,
               blockedUntil = 0\<rparr>),
      (''d'', \<lparr>count = 5, firstAttempt = 196000, lastAttempt = 200000, blocked = True,
               blockedUntil = 2000000\<rparr>)]) \<and>
   cleanup 2000000
     [(''a'', \<lparr>count = 5, firstAttempt = 0, lastAttempt = 4000, blocked = True,
               blockedUntil = 1804000\<rparr>),
      (''b'', \<lparr>count = 2, firstAttempt = 1000000, lastAttempt = 1000500, blocked = False,
               blockedUntil = 0\<rparr>),
      (''c'', \<lparr>count = 1, firstAttempt = 1500000, lastAttempt = 1500000, blocked = False,
               blockedUntil = 0\<rparr>),
      (''d'', \<lparr>count = 5, firstAttempt = 196000, lastAttempt = 200000, blocked = True,
               blockedUntil = 2000000\<rparr>)] =
     [(''c'', \<lparr>count = 1, firstAttempt = 1500000, lastAttempt = 1500000, blocked = False,
               blockedUntil = 0\<rparr>),
      (''d'', \<lparr>count = 5, firstAttempt = 196000, lastAttempt = 200000, blocked = True,
               blockedUntil = 2000000\<rparr>)]"
  using cleanup_removes_expired [of
     "[(''a'', \<lparr>count = 5, firstAttempt = 0, lastAttempt = 4000, blocked = True,
               blockedUntil = 1804000\<rparr>),
      (''b'', \<lparr>count = 2, firstAttempt = 1000000, lastAttempt = 1000500, blocked = False,
               blockedUntil = 0\<rparr>),
      (''c'', \<lparr>count = 1, firstAttempt = 1500000, lastAttempt = 1500000, blocked = False,
               blockedUntil = 0\<rparr>),
      (''d'', \<lparr>count = 5, firstAttempt = 196000, lastAttempt = 200000, blocked = True,
               blockedUntil = 2000000\<rparr>)]" 2000000 "''a''"]
  by (simp add: spec_expired_def WINDOW_MS_def)

end
